theory Spec2Isabelle
  imports Complex_Main
begin

section \<open>Data model of astro.go\<close>

text \<open>
  Modelled from the spec: the type \<^verbatim>\<open>gphoto2.CameraFilePath\<close> is declared in the imported
  binding, not in \<^verbatim>\<open>astro.go\<close>. The spec's Device File Record has a file name, a
  directory/container path on the device and a directory-vs-file flag; the source reads
  the fields \<^verbatim>\<open>Name\<close>, \<^verbatim>\<open>Dir\<close> and \<^verbatim>\<open>Children\<close>.
\<close>

datatype CameraFilePath =
  CameraFilePath (Name: string) (Folder: string) (Dir: bool) (Children: "CameraFilePath list")

text \<open>\<^verbatim>\<open>type CameraFiles []gphoto2.CameraFilePath\<close>\<close>

type_synonym CameraFiles = "CameraFilePath list"

subsection \<open>Contains and FindNew (lines 44-66)\<close>

fun Contains :: "CameraFiles \<Rightarrow> CameraFilePath \<Rightarrow> bool" where
  "Contains [] file = False"
| "Contains (f # c) file = (if Name f = Name file then True else Contains c file)"

text \<open>The \<^verbatim>\<open>for _, newFile := range *files\<close> loop of FindNew, appending to \<^verbatim>\<open>result\<close>.\<close>

fun FindNew_loop :: "CameraFiles \<Rightarrow> CameraFiles \<Rightarrow> CameraFiles \<Rightarrow> CameraFiles" where
  "FindNew_loop c [] result = result"
| "FindNew_loop c (newFile # files) result =
     FindNew_loop c files (if \<not> Contains c newFile then result @ [newFile] else result)"

definition FindNew :: "CameraFiles \<Rightarrow> CameraFiles \<Rightarrow> CameraFiles" where
  "FindNew c files =
     (if length c = length files then []
      else FindNew_loop c files [])"

subsection \<open>Go integers and fmt verbs\<close>

text \<open>
  Go's \<^verbatim>\<open>int\<close> is a 64-bit two's complement integer on the platforms the binding
  supports. Integer fields are modelled as \<^typ>\<open>int\<close>; every arithmetic result of the
  source that can overflow is passed through \<open>wrap64\<close>.
\<close>

definition wrap64 :: "int \<Rightarrow> int" where
  "wrap64 x = (x + 2 ^ 63) mod 2 ^ 64 - 2 ^ 63"

definition digit :: "nat \<Rightarrow> char" where
  "digit n = ''0123456789'' ! n"

fun digits :: "nat \<Rightarrow> string" where
  "digits n = (if n < 10 then [digit n] else digits (n div 10) @ [digit (n mod 10)])"

declare digits.simps [simp del]

text \<open>The verb \<^verbatim>\<open>%d\<close> and \<^verbatim>\<open>strconv.Itoa\<close>: decimal, with a sign for negatives.\<close>

definition Itoa :: "int \<Rightarrow> string" where
  "Itoa i = (if i < 0 then CHR ''-'' # digits (nat (- i)) else digits (nat i))"

text \<open>A minimum field width, as in \<^verbatim>\<open>%3d\<close>: padded with spaces on the left.\<close>

definition width :: "nat \<Rightarrow> string \<Rightarrow> string" where
  "width n s = replicate (n - length s) CHR '' '' @ s"

definition nl :: string where
  "nl = [CHR 0x0A]"

definition cr :: string where
  "cr = [CHR 0x0D]"

subsection \<open>The Camera struct (lines 68-84)\<close>

text \<open>
  The field \<^verbatim>\<open>camera *gphoto2.Camera\<close> is the connection to the device; it lives in the
  world below. \<^verbatim>\<open>Aperture\<close> is a \<^verbatim>\<open>float64\<close> that the program only stores and
  formats; it is carried as a real number and its formatting is a parameter.
\<close>

record Camera =
  Model :: string
  Lens :: string
  Battery :: string
  ISO :: int
  Aperture :: real
  Shutter :: string
  Duration :: int
  Frames :: int
  Current :: int
  Target :: string
  Kind :: string
  Keep :: bool
  Files :: CameraFiles

definition EosRemoteRelease :: string where
  "EosRemoteRelease = ''eosremoterelease''"

definition BatteryLevel :: string where
  "BatteryLevel = ''batterylevel''"

subsection \<open>The device and the operating system\<close>

text \<open>
  A Go \<^verbatim>\<open>error\<close> is its message. Every call the program makes to the gphoto2 binding,
  to \<^verbatim>\<open>os\<close> and to \<^verbatim>\<open>time\<close> is recorded, in the order issued. What a call
  answers is not the program's to decide: the answers are a parameter \<open>env\<close>, each a function
  of the calls issued so far, which covers every deterministic device. The values read from
  the settings \<^verbatim>\<open>cameramodel\<close>, \<^verbatim>\<open>lensname\<close> and \<^verbatim>\<open>batterylevel\<close> are text, so the
  type assertions \<^verbatim>\<open>v.(string)\<close> of the source are identities.
\<close>

datatype error = Error (message: string)

datatype call =
    NewCamera string
  | GetSetting string
  | SettingGet string
  | SettingSet string string
  | ListFiles
  | Reset
  | DownloadImage CameraFilePath string bool
  | CameraExit
  | CameraFree
  | OsCreate string
  | FileClose string
  | Sleep int

record env =
  on_NewCamera :: "call list \<Rightarrow> string \<Rightarrow> error option"
  on_GetSetting :: "call list \<Rightarrow> string \<Rightarrow> error option"
  on_Get :: "call list \<Rightarrow> string \<Rightarrow> error + string"
  on_Set :: "call list \<Rightarrow> string \<Rightarrow> string \<Rightarrow> error option"
  on_ListFiles :: "call list \<Rightarrow> error + CameraFilePath list"
  on_Reset :: "call list \<Rightarrow> error option"
  on_DownloadImage :: "call list \<Rightarrow> CameraFilePath \<Rightarrow> string \<Rightarrow> bool \<Rightarrow> error option"
  on_Exit :: "call list \<Rightarrow> error option"
  on_Free :: "call list \<Rightarrow> error option"
  on_Create :: "call list \<Rightarrow> string \<Rightarrow> error option"
  FormatFloat :: "real \<Rightarrow> string"

record world =
  calls :: "call list"
  stdout :: "string list"
  stderr :: "string list"

definition issue :: "call \<Rightarrow> world \<Rightarrow> world" where
  "issue k w = w\<lparr>calls := calls w @ [k]\<rparr>"

definition fmt_Printf :: "string \<Rightarrow> world \<Rightarrow> world" where
  "fmt_Printf s w = w\<lparr>stdout := stdout w @ [s]\<rparr>"

definition time_Sleep :: "int \<Rightarrow> world \<Rightarrow> world" where
  "time_Sleep ns w = issue (Sleep ns) w"

definition gphoto2_NewCamera :: "env \<Rightarrow> string \<Rightarrow> world \<Rightarrow> error option \<times> world" where
  "gphoto2_NewCamera env name w = (on_NewCamera env (calls w) name, issue (NewCamera name) w)"

definition camera_GetSetting :: "env \<Rightarrow> string \<Rightarrow> world \<Rightarrow> error option \<times> world" where
  "camera_GetSetting env name w = (on_GetSetting env (calls w) name, issue (GetSetting name) w)"

definition setting_Get :: "env \<Rightarrow> string \<Rightarrow> world \<Rightarrow> (error + string) \<times> world" where
  "setting_Get env name w = (on_Get env (calls w) name, issue (SettingGet name) w)"

definition setting_Set :: "env \<Rightarrow> string \<Rightarrow> string \<Rightarrow> world \<Rightarrow> error option \<times> world" where
  "setting_Set env name v w = (on_Set env (calls w) name v, issue (SettingSet name v) w)"

definition camera_ListFiles :: "env \<Rightarrow> world \<Rightarrow> (error + CameraFilePath list) \<times> world" where
  "camera_ListFiles env w = (on_ListFiles env (calls w), issue ListFiles w)"

definition camera_Reset :: "env \<Rightarrow> world \<Rightarrow> error option \<times> world" where
  "camera_Reset env w = (on_Reset env (calls w), issue Reset w)"

definition camera_Exit :: "env \<Rightarrow> world \<Rightarrow> error option \<times> world" where
  "camera_Exit env w = (on_Exit env (calls w), issue CameraExit w)"

definition camera_Free :: "env \<Rightarrow> world \<Rightarrow> error option \<times> world" where
  "camera_Free env w = (on_Free env (calls w), issue CameraFree w)"

definition os_Create :: "env \<Rightarrow> string \<Rightarrow> world \<Rightarrow> error option \<times> world" where
  "os_Create env path w = (on_Create env (calls w) path, issue (OsCreate path) w)"

text \<open>
  \<^verbatim>\<open>file.DownloadImage(fh, false)\<close>: the destination stream is named by the path it was
  created at; the boolean is the call's second argument.
\<close>

definition file_DownloadImage ::
  "env \<Rightarrow> CameraFilePath \<Rightarrow> string \<Rightarrow> bool \<Rightarrow> world \<Rightarrow> error option \<times> world" where
  "file_DownloadImage env file fh b w =
     (on_DownloadImage env (calls w) file fh b, issue (DownloadImage file fh b) w)"

text \<open>\<^verbatim>\<open>fmt.Errorf\<close> with one \<^verbatim>\<open>%v\<close> between a prefix and a suffix.\<close>

definition Errorf :: "string \<Rightarrow> error \<Rightarrow> string \<Rightarrow> error" where
  "Errorf prefix err suffix = Error (prefix @ message err @ suffix)"

text \<open>
  \<^verbatim>\<open>log.Fatal(err)\<close> writes the message to standard error (the time stamp of the
  logger is left out) and ends the process with status 1.
\<close>

definition log_Fatal :: "error \<Rightarrow> world \<Rightarrow> int \<times> world" where
  "log_Fatal err w = (1, w\<lparr>stderr := stderr w @ [message err]\<rparr>)"

subsection \<open>LoadCameraFiles (lines 22-42)\<close>

text \<open>The four nested \<^verbatim>\<open>range\<close> loops: device, container, directory, file.\<close>

definition walk :: "CameraFilePath list \<Rightarrow> CameraFiles" where
  "walk storage =
     [file. device \<leftarrow> storage, container \<leftarrow> Children device,
            directory \<leftarrow> Children container, file \<leftarrow> Children directory, \<not> Dir file]"

definition LoadCameraFiles ::
  "env \<Rightarrow> CameraFiles \<Rightarrow> world \<Rightarrow> error option \<times> CameraFiles \<times> world" where
  "LoadCameraFiles env c w =
     (case camera_ListFiles env w of
        (Inl err, w1) \<Rightarrow> (Some err, c, w1)
      | (Inr storage, w1) \<Rightarrow> (None, c @ walk storage, w1))"

subsection \<open>SetConfig, GetBatteryStatus and Status (lines 86-130)\<close>

definition SetConfig :: "env \<Rightarrow> string \<Rightarrow> string \<Rightarrow> world \<Rightarrow> error option \<times> world" where
  "SetConfig env CameraSetting v w =
     (case camera_GetSetting env CameraSetting w of
        (Some err, w1) \<Rightarrow> (Some err, w1)
      | (None, w1) \<Rightarrow>
          (case setting_Set env CameraSetting v w1 of
             (Some err, w2) \<Rightarrow> (Some err, w2)
           | (None, w2) \<Rightarrow> (None, w2)))"

definition GetBatteryStatus :: "env \<Rightarrow> world \<Rightarrow> (error + string) \<times> world" where
  "GetBatteryStatus env w =
     (case camera_GetSetting env BatteryLevel w of
        (Some err, w1) \<Rightarrow> (Inl err, w1)
      | (None, w1) \<Rightarrow>
          (case setting_Get env BatteryLevel w1 of
             (Inl err, w2) \<Rightarrow> (Inl err, w2)
           | (Inr v, w2) \<Rightarrow> (Inr v, w2)))"

definition Status :: "Camera \<Rightarrow> int \<Rightarrow> int \<Rightarrow> string" where
  "Status c frame seconds =
     (if Frames c = 0 then
        ''Capturing '' @ Kind c @ '' frame '' @ width 3 (Itoa frame) @ ''; ''
          @ width 3 (Itoa seconds) @ '' seconds remaining; battery: '' @ Battery c
      else
        ''Capturing '' @ Kind c @ '' frame '' @ width 3 (Itoa frame) @ ''/'' @ Itoa (Frames c)
          @ ''; '' @ width 3 (Itoa seconds) @ '' seconds remaining; battery: '' @ Battery c)"

subsection \<open>CaptureBulb (lines 132-185)\<close>

text \<open>
  The print loop of lines 145-150 runs in a goroutine beside the sleep of line 153, one
  line a second for \<^verbatim>\<open>Duration\<close> seconds, while the main flow sleeps \<^verbatim>\<open>Duration\<close>
  seconds and 100 ms. Its lines are recorded here in the order the loop produces them,
  before the sleep; its own one-second sleeps are not recorded, and the interleaving of the
  two flows is not modelled.
\<close>

definition print_loop :: "Camera \<Rightarrow> int \<Rightarrow> world \<Rightarrow> world" where
  "print_loop c frame w =
     w\<lparr>stdout := stdout w @ map (\<lambda>left. Status c frame left @ cr) (rev [1..Duration c])\<rparr>"

text \<open>Lines 134-164: battery, arm, wait, release, settle, reset.\<close>

definition CaptureBulb_expose ::
  "env \<Rightarrow> int \<Rightarrow> Camera \<Rightarrow> world \<Rightarrow> error option \<times> Camera \<times> world" where
  "CaptureBulb_expose env frame c w =
     (case GetBatteryStatus env w of
        (Inl err, w1) \<Rightarrow> (Some err, c, w1)
      | (Inr battery, w1) \<Rightarrow>
          (let c1 = c\<lparr>Battery := battery\<rparr> in
           case SetConfig env EosRemoteRelease ''Immediate'' w1 of
             (Some err, w2) \<Rightarrow> (Some err, c1, w2)
           | (None, w2) \<Rightarrow>
               (let w3 = print_loop c1 frame w2;
                    w4 = time_Sleep (wrap64 (1000000000 * Duration c1 + 100000000)) w3
                in case SetConfig env EosRemoteRelease ''Release Full'' w4 of
                     (Some err, w5) \<Rightarrow> (Some err, c1, w5)
                   | (None, w5) \<Rightarrow>
                       (case camera_Reset env (time_Sleep 2000000000 w5) of
                          (Some err, w6) \<Rightarrow> (Some err, c1, w6)
                        | (None, w6) \<Rightarrow> (None, c1, w6)))))"

text \<open>
  The loop of lines 171-182 over the new files. \<open>opened\<close> holds the handles whose
  \<^verbatim>\<open>Close\<close> has been deferred, the latest first.
\<close>

fun download_loop ::
  "env \<Rightarrow> Camera \<Rightarrow> CameraFiles \<Rightarrow> string list \<Rightarrow> world \<Rightarrow> error option \<times> string list \<times> world"
  where
  "download_loop env c [] opened w = (None, opened, w)"
| "download_loop env c (file # newFiles) opened w =
     (let path = Target c @ ''/'' @ Kind c @ ''/'' @ Name file in
      case os_Create env path w of
        (Some err, w1) \<Rightarrow> (Some err, opened, w1)
      | (None, w1) \<Rightarrow>
          (case file_DownloadImage env file path False w1 of
             (Some err, w2) \<Rightarrow> (Some err, path # opened, w2)
           | (None, w2) \<Rightarrow> download_loop env c newFiles (path # opened) w2))"

definition run_deferred :: "string list \<Rightarrow> world \<Rightarrow> world" where
  "run_deferred opened w = w\<lparr>calls := calls w @ map FileClose opened\<rparr>"

text \<open>Lines 165-184: list, reconcile, download.\<close>

definition CaptureBulb_download ::
  "env \<Rightarrow> Camera \<Rightarrow> world \<Rightarrow> error option \<times> Camera \<times> world" where
  "CaptureBulb_download env c w =
     (case LoadCameraFiles env [] w of
        (Some err, files, w1) \<Rightarrow> (Some err, c, w1)
      | (None, files, w1) \<Rightarrow>
          (case download_loop env c (FindNew (Files c) files) [] w1 of
             (r, opened, w2) \<Rightarrow> (r, c, run_deferred opened w2)))"

definition CaptureBulb ::
  "env \<Rightarrow> int \<Rightarrow> Camera \<Rightarrow> world \<Rightarrow> error option \<times> Camera \<times> world" where
  "CaptureBulb env frame c w =
     (case CaptureBulb_expose env frame c w of
        (Some err, c1, w1) \<Rightarrow> (Some err, c1, w1)
      | (None, c1, w1) \<Rightarrow> CaptureBulb_download env c1 w1)"

subsection \<open>Close and Init (lines 187-269)\<close>

definition Close :: "env \<Rightarrow> world \<Rightarrow> error option \<times> world" where
  "Close env w =
     (case camera_Exit env w of
        (Some err, w1) \<Rightarrow> (Some err, w1)
      | (None, w1) \<Rightarrow>
          (case camera_Free env w1 of
             (Some err, w2) \<Rightarrow> (Some err, w2)
           | (None, w2) \<Rightarrow> (None, w2)))"

text \<open>
  The seven \<^verbatim>\<open>SetConfig\<close> calls of lines 232-259, in order: the setting, its value and
  what follows \<^verbatim>\<open>%v\<close> in the error of that call (\<^verbatim>\<open>Init(<setting>): %v\<close>).
\<close>

definition Init_settings :: "env \<Rightarrow> Camera \<Rightarrow> (string \<times> string \<times> string) list" where
  "Init_settings env c =
     [(''focusmode'', ''Manual'', []),
      (''shutterspeed'', Shutter c, []),
      (''iso'', Itoa (ISO c), []),
      (''whitebalance'', ''Daylight'', []),
      (''imageformat'', ''RAW'', []),
      (''aperture'', FormatFloat env (Aperture c), []),
      (''capturetarget'', ''Memory card'', nl)]"

fun Init_configure ::
  "env \<Rightarrow> (string \<times> string \<times> string) list \<Rightarrow> world \<Rightarrow> error option \<times> world" where
  "Init_configure env [] w = (None, w)"
| "Init_configure env ((setting, v, suffix) # rest) w =
     (case SetConfig env setting v w of
        (Some err, w1) \<Rightarrow>
          (Some (Errorf (''Init('' @ setting @ ''): '') err suffix),
           fmt_Printf (''Error!'' @ nl) w1)
      | (None, w1) \<Rightarrow> Init_configure env rest w1)"

text \<open>Lines 206-229: model, lens and the initial listing.\<close>

definition Init_identify ::
  "env \<Rightarrow> Camera \<Rightarrow> world \<Rightarrow> error option \<times> Camera \<times> world" where
  "Init_identify env c w =
     (case camera_GetSetting env ''cameramodel'' w of
        (Some err, w1) \<Rightarrow> (Some (Errorf ''Init(cameramodel): '' err nl), c, w1)
      | (None, w1) \<Rightarrow>
     (case setting_Get env ''cameramodel'' w1 of
        (Inl err, w2) \<Rightarrow> (Some (Errorf ''Init(model): '' err nl), c, w2)
      | (Inr modelStr, w2) \<Rightarrow>
     (let c1 = c\<lparr>Model := modelStr\<rparr> in
      case camera_GetSetting env ''lensname'' w2 of
        (Some err, w3) \<Rightarrow> (Some (Errorf ''Init(lensname): '' err nl), c1, w3)
      | (None, w3) \<Rightarrow>
     (case setting_Get env ''lensname'' w3 of
        (Inl err, w4) \<Rightarrow> (Some (Errorf ''Init(lens): '' err nl), c1, w4)
      | (Inr lensStr, w4) \<Rightarrow>
     (let c2 = c1\<lparr>Lens := lensStr\<rparr> in
      case LoadCameraFiles env (Files c2) w4 of
        (r, files, w5) \<Rightarrow> (r, c2\<lparr>Files := files\<rparr>, w5))))))"

definition Init :: "env \<Rightarrow> string \<Rightarrow> Camera \<Rightarrow> world \<Rightarrow> error option \<times> Camera \<times> world" where
  "Init env name c w =
     (case gphoto2_NewCamera env name w of
        (Some err, w1) \<Rightarrow> (Some err, c, w1)
      | (None, w1) \<Rightarrow>
     (case Init_identify env c w1 of
        (Some err, c1, w2) \<Rightarrow> (Some err, c1, w2)
      | (None, c1, w2) \<Rightarrow>
     (case Init_configure env (Init_settings env c1)
             (fmt_Printf (''Initializing camera: '' @ Model c1 @ ''... '') w2) of
        (Some err, w3) \<Rightarrow> (Some err, c1, w3)
      | (None, w3) \<Rightarrow>
     (case GetBatteryStatus env w3 of
        (Inl err, w4) \<Rightarrow>
          (Some (Errorf ''Init(batterylevel): '' err nl), c1, fmt_Printf (''Error!'' @ nl) w4)
      | (Inr battery, w4) \<Rightarrow>
          (None, c1\<lparr>Battery := battery\<rparr>, fmt_Printf (''Done.'' @ nl) w4)))))"

subsection \<open>CaptureLoop (lines 271-282)\<close>

text \<open>
  The \<^verbatim>\<open>for\<close> loop from the value \<open>frame\<close> of its counter on. With \<^verbatim>\<open>Frames\<close> 0 and
  a device that never fails the loop does not end: the result is then \<open>None\<close>.
\<close>

partial_function (option) CaptureLoop_from ::
  "env \<Rightarrow> int \<Rightarrow> Camera \<Rightarrow> world \<Rightarrow> (error option \<times> Camera \<times> world) option" where
  "CaptureLoop_from env frame c w =
     (if Frames c = 0 \<or> frame < Frames c then
        (case CaptureBulb env (wrap64 (frame + 1)) c w of
           (Some err, c1, w1) \<Rightarrow> Some (Some err, c1, w1)
         | (None, c1, w1) \<Rightarrow> CaptureLoop_from env (wrap64 (frame + 1)) c1 w1)
      else Some (None, c, fmt_Printf (nl @ nl @ ''Frames capture complete.'' @ nl) w))"

declare CaptureLoop_from.simps [code]

definition CaptureLoop ::
  "env \<Rightarrow> Camera \<Rightarrow> world \<Rightarrow> (error option \<times> Camera \<times> world) option" where
  "CaptureLoop env c w = CaptureLoop_from env 0 c w"

text \<open>
  The same loop as a transition system: \<open>CaptureLoop_at env c0 w0 frame c w\<close> holds when
  the loop started from \<open>c0\<close>, \<open>w0\<close> stands at its head with counter \<open>frame\<close>, session
  \<open>c\<close> and world \<open>w\<close>. If the loop condition holds there, the body invokes
  \<open>CaptureBulb env (wrap64 (frame + 1)) c w\<close>.
\<close>

inductive CaptureLoop_at ::
  "env \<Rightarrow> Camera \<Rightarrow> world \<Rightarrow> int \<Rightarrow> Camera \<Rightarrow> world \<Rightarrow> bool"
  for env :: env and c0 :: Camera and w0 :: world where
  enter: "CaptureLoop_at env c0 w0 0 c0 w0"
| again: "CaptureLoop_at env c0 w0 frame c w \<Longrightarrow>
          Frames c = 0 \<or> frame < Frames c \<Longrightarrow>
          CaptureBulb env (wrap64 (frame + 1)) c w = (None, c1, w1) \<Longrightarrow>
          CaptureLoop_at env c0 w0 (wrap64 (frame + 1)) c1 w1"

text \<open>
  The words of the spec for a bounded run: the Exposure Cycle invoked once for each frame
  index of a list, in the order of the list, stopping at the first failure.
\<close>

fun cycles_in_order ::
  "env \<Rightarrow> int list \<Rightarrow> Camera \<Rightarrow> world \<Rightarrow> error option \<times> Camera \<times> world" where
  "cycles_in_order env [] c w = (None, c, w)"
| "cycles_in_order env (frame # frames) c w =
     (case CaptureBulb env frame c w of
        (Some err, c1, w1) \<Rightarrow> (Some err, c1, w1)
      | (None, c1, w1) \<Rightarrow> cycles_in_order env frames c1 w1)"

subsection \<open>main (lines 284-337)\<close>

text \<open>
  Flag parsing is outside the model: \<open>main\<close> takes the session as the flags filled it and
  the camera name. The result is the exit status of the process and the final world, or
  \<open>None\<close> when the capture loop never ends. Returning from \<^verbatim>\<open>main\<close> is exit status 0.
\<close>

definition sanity_checks :: "Camera \<Rightarrow> string option" where
  "sanity_checks camera =
     (if Kind camera \<noteq> ''lights'' \<and> Kind camera \<noteq> ''darks'' then
        Some (''Bad 'kind' option: '' @ Kind camera
              @ '' (must be either 'lights' or 'darks'' @ [CHR 0x27])
      else if wrap64 (Frames camera * Duration camera) > 28800 then
        Some (''Specified shooting time is longer than 8 hours, aborting.'' @ nl)
      else None)"

definition print_camera_info :: "Camera \<Rightarrow> world \<Rightarrow> world" where
  "print_camera_info camera w =
     fmt_Printf (''Battery Level: '' @ Battery camera @ nl @ nl)
       (fmt_Printf (''SD Card Files: '' @ Itoa (int (length (Files camera))) @ nl)
         (fmt_Printf (''Lens Model:    '' @ Lens camera @ nl)
           (fmt_Printf (''Camera Model:  '' @ Model camera @ nl) w)))"

text \<open>Lines 306-336: what \<^verbatim>\<open>main\<close> does once the sanity checks have passed.\<close>

definition main_after_checks ::
  "env \<Rightarrow> Camera \<Rightarrow> string \<Rightarrow> world \<Rightarrow> (int \<times> world) option" where
  "main_after_checks env camera cameraName w =
     (case Init env cameraName camera w of
        (Some err, c1, w1) \<Rightarrow> Some (log_Fatal err w1)
      | (None, c1, w1) \<Rightarrow>
     (case CaptureLoop env c1 (print_camera_info c1 w1) of
        None \<Rightarrow> None
      | Some (Some err, c2, w2) \<Rightarrow> Some (log_Fatal err w2)
      | Some (None, c2, w2) \<Rightarrow>
     (case Close env w2 of
        (Some err, w3) \<Rightarrow> Some (log_Fatal err w3)
      | (None, w3) \<Rightarrow> Some (0, w3))))"

definition main :: "env \<Rightarrow> Camera \<Rightarrow> string \<Rightarrow> world \<Rightarrow> (int \<times> world) option" where
  "main env camera cameraName w =
     (case sanity_checks camera of
        Some refusal \<Rightarrow> Some (0, fmt_Printf refusal w)
      | None \<Rightarrow> main_after_checks env camera cameraName w)"

text \<open>
  The body of the signal goroutine (lines 320-326) on the first interrupt: the result of
  \<^verbatim>\<open>SetConfig\<close> is dropped, then \<^verbatim>\<open>os.Exit(1)\<close>. When the signal arrives, and what the
  main flow is doing then, is not modelled.
\<close>

definition interrupt_handler :: "env \<Rightarrow> world \<Rightarrow> int \<times> world" where
  "interrupt_handler env w =
     (case SetConfig env EosRemoteRelease ''Release Full'' w of
        (r, w1) \<Rightarrow> (1, w1))"

subsection \<open>Observations on a run\<close>

text \<open>The files of the \<^verbatim>\<open>DownloadImage\<close> calls among the calls issued, in order.\<close>

fun downloaded :: "call list \<Rightarrow> CameraFiles" where
  "downloaded [] = []"
| "downloaded (DownloadImage file fh b # ks) = file # downloaded ks"
| "downloaded (k # ks) = downloaded ks"

text \<open>
  The manifest that line 167 loads into \<^verbatim>\<open>files\<close> in the cycle started from \<open>c\<close> and
  \<open>w\<close>: the listing fetched after the exposure and the reset.
\<close>

definition listed_after_exposure :: "env \<Rightarrow> int \<Rightarrow> Camera \<Rightarrow> world \<Rightarrow> CameraFiles" where
  "listed_after_exposure env frame c w =
     (case CaptureBulb_expose env frame c w of
        (r, c1, w1) \<Rightarrow> (case LoadCameraFiles env [] w1 of (r', files, w2) \<Rightarrow> files))"

subsection \<open>An example device\<close>

text \<open>
  A camera on which every command succeeds. Its card is empty when the session starts and
  lists one image, three levels down, in every later listing.
\<close>

definition example_image :: CameraFilePath where
  "example_image = CameraFilePath ''IMG_0001.CR2'' ''/store_00010001/DCIM/100CANON'' False []"

definition example_storage :: "CameraFiles \<Rightarrow> CameraFilePath list" where
  "example_storage files =
     [CameraFilePath ''store_00010001'' ''/'' True
        [CameraFilePath ''DCIM'' ''/store_00010001'' True
           [CameraFilePath ''100CANON'' ''/store_00010001/DCIM'' True files]]]"

definition example_device :: env where
  "example_device =
     \<lparr>on_NewCamera = (\<lambda>h name. None),
      on_GetSetting = (\<lambda>h name. None),
      on_Get = (\<lambda>h name. Inr (if name = ''batterylevel'' then ''75%''
                               else if name = ''cameramodel'' then ''Canon EOS 600D''
                               else ''EF50mm f/1.8 II'')),
      on_Set = (\<lambda>h name v. None),
      on_ListFiles =
        (\<lambda>h. Inr (example_storage (if ListFiles \<in> set h then [example_image] else []))),
      on_Reset = (\<lambda>h. None),
      on_DownloadImage = (\<lambda>h file fh b. None),
      on_Exit = (\<lambda>h. None),
      on_Free = (\<lambda>h. None),
      on_Create = (\<lambda>h path. None),
      FormatFloat = (\<lambda>a. ''2.8'')\<rparr>"

text \<open>The same camera, except that closing it fails.\<close>

definition busy_device :: env where
  "busy_device = example_device\<lparr>on_Exit := (\<lambda>h. Some (Error ''I/O in progress''))\<rparr>"

text \<open>The session as the flags \<^verbatim>\<open>-frames=1 -duration=2\<close> leave it.\<close>

definition example_flags :: Camera where
  "example_flags =
     \<lparr>Model = [], Lens = [], Battery = [], ISO = 800, Aperture = 2.8, Shutter = ''bulb'',
      Duration = 2, Frames = 1, Current = 0, Target = ''/tmp/target'', Kind = ''lights'',
      Keep = False, Files = []\<rparr>"

definition power_on :: world where
  "power_on = \<lparr>calls = [], stdout = [], stderr = []\<rparr>"

text \<open>The session and the world when \<^verbatim>\<open>Init\<close> has returned on either device.\<close>

definition example_session :: Camera where
  "example_session =
     example_flags\<lparr>Model := ''Canon EOS 600D'', Lens := ''EF50mm f/1.8 II'', Battery := ''75%''\<rparr>"

definition example_world :: world where
  "example_world =
     \<lparr>calls =
        [NewCamera [], GetSetting ''cameramodel'', SettingGet ''cameramodel'',
         GetSetting ''lensname'', SettingGet ''lensname'', ListFiles,
         GetSetting ''focusmode'', SettingSet ''focusmode'' ''Manual'',
         GetSetting ''shutterspeed'', SettingSet ''shutterspeed'' ''bulb'',
         GetSetting ''iso'', SettingSet ''iso'' ''800'',
         GetSetting ''whitebalance'', SettingSet ''whitebalance'' ''Daylight'',
         GetSetting ''imageformat'', SettingSet ''imageformat'' ''RAW'',
         GetSetting ''aperture'', SettingSet ''aperture'' ''2.8'',
         GetSetting ''capturetarget'', SettingSet ''capturetarget'' ''Memory card'',
         GetSetting ''batterylevel'', SettingGet ''batterylevel''],
      stdout = [''Initializing camera: Canon EOS 600D... '', ''Done.'' @ nl],
      stderr = []\<rparr>"

section \<open>The manifest reconciler\<close>

lemma Contains_iff: "Contains c file \<longleftrightarrow> Name file \<in> Name ` set c"
  by (induction c) auto

lemma FindNew_loop_filter:
  "FindNew_loop c files result = result @ filter (\<lambda>newFile. \<not> Contains c newFile) files"
  by (induction files arbitrary: result) simp_all

lemma FindNew_filter:
  "FindNew c files =
     (if length c = length files then []
      else filter (\<lambda>newFile. Name newFile \<notin> Name ` set c) files)"
  by (simp add: FindNew_def FindNew_loop_filter Contains_iff)

text \<open>
  Claim C9. For every manifest \<open>M\<close>, \<open>FindNew M M\<close> is the empty manifest.
\<close>

theorem FindNew_same_manifest: "FindNew M M = []"
  by (simp add: FindNew_def)

text \<open>
  Claim C4. For every two manifests \<open>A\<close> and \<open>B\<close> of the same length, \<open>FindNew A B\<close> is
  the empty manifest, whatever the names in \<open>A\<close> and \<open>B\<close>.
\<close>

theorem FindNew_equal_length:
  assumes "length A = length B"
  shows "FindNew A B = []"
  using assms by (simp add: FindNew_def)

theorem FindNew_equal_length_witness:
  "length [example_image] = length [CameraFilePath ''IMG_0002.CR2'' [] False []]
   \<and> FindNew [example_image] [CameraFilePath ''IMG_0002.CR2'' [] False []] = []"
  using FindNew_equal_length [of "[example_image]" "[CameraFilePath ''IMG_0002.CR2'' [] False []]"]
  by simp

text \<open>
  Claim C2, as stated, fails on two manifests of one record each with different names: their
  name sets are disjoint, and the fast path of line 57 returns the empty manifest, not \<open>B\<close>.
\<close>

theorem FindNew_disjoint_counterexample:
  "Name ` set [example_image] \<inter> Name ` set [CameraFilePath ''IMG_0002.CR2'' [] False []] = {}
   \<and> FindNew [example_image] [CameraFilePath ''IMG_0002.CR2'' [] False []]
       \<noteq> [CameraFilePath ''IMG_0002.CR2'' [] False []]"
  by (simp add: FindNew_def example_image_def)

text \<open>
  Claim C2, amended. For every two manifests \<open>A\<close> and \<open>B\<close> whose name sets are disjoint,
  \<open>FindNew A B\<close> is exactly \<open>B\<close>, every record in the order of \<open>B\<close>, when the lengths of
  \<open>A\<close> and \<open>B\<close> differ, and the empty manifest when they are equal.
\<close>

theorem FindNew_disjoint:
  assumes "Name ` set A \<inter> Name ` set B = {}"
  shows "FindNew A B = (if length A = length B then [] else B)"
proof -
  have "filter (\<lambda>newFile. Name newFile \<notin> Name ` set A) B = B"
    using assms by (auto simp: filter_id_conv)
  then show ?thesis
    by (simp add: FindNew_filter)
qed

theorem FindNew_disjoint_witness:
  "Name ` set [example_image]
     \<inter> Name ` set [CameraFilePath ''IMG_0003.CR2'' [] False [],
                      CameraFilePath ''IMG_0002.CR2'' [] False []] = {}
   \<and> FindNew [example_image]
         [CameraFilePath ''IMG_0003.CR2'' [] False [], CameraFilePath ''IMG_0002.CR2'' [] False []]
       = [CameraFilePath ''IMG_0003.CR2'' [] False [], CameraFilePath ''IMG_0002.CR2'' [] False []]"
proof -
  have "Name ` set [example_image]
     \<inter> Name ` set [CameraFilePath ''IMG_0003.CR2'' [] False [],
                      CameraFilePath ''IMG_0002.CR2'' [] False []] = {}"
    by (simp add: example_image_def)
  from FindNew_disjoint [OF this] this show ?thesis
    by simp
qed

section \<open>The status line\<close>

text \<open>
  Claim C5, as stated, fails: the verb \<^verbatim>\<open>%3d\<close> pads the 45 seconds to three columns, so
  two spaces stand between the semicolon and 45, not one.
\<close>

theorem Status_unbounded_counterexample:
  "Status (example_flags\<lparr>Frames := 0, Battery := ''75%''\<rparr>) 3 45
     \<noteq> ''Capturing lights frame   3; 45 seconds remaining; battery: 75%''"
  by (simp add: Status_def example_flags_def width_def Itoa_def digits.simps digit_def)

text \<open>
  Claim C5, amended. For a session with target frame count 0, kind \<^verbatim>\<open>lights\<close> and battery
  \<^verbatim>\<open>75%\<close>, the status line for frame 3 with 45 seconds remaining is the claimed string with
  the seconds padded to width three as well.
\<close>

theorem Status_unbounded:
  assumes "Frames c = 0" and "Kind c = ''lights''" and "Battery c = ''75%''"
  shows "Status c 3 45 = ''Capturing lights frame   3;  45 seconds remaining; battery: 75%''"
  using assms by (simp add: Status_def width_def Itoa_def digits.simps digit_def numeral_2_eq_2)

theorem Status_unbounded_witness:
  "Status (example_flags\<lparr>Frames := 0, Battery := ''75%''\<rparr>) 3 45
     = ''Capturing lights frame   3;  45 seconds remaining; battery: 75%''"
  using Status_unbounded [of "example_flags\<lparr>Frames := 0, Battery := ''75%''\<rparr>"]
  by (simp add: example_flags_def)

section \<open>The abort handler\<close>

lemmas device_calls = gphoto2_NewCamera_def camera_GetSetting_def setting_Get_def
  setting_Set_def camera_ListFiles_def camera_Reset_def camera_Exit_def camera_Free_def
  os_Create_def file_DownloadImage_def issue_def time_Sleep_def fmt_Printf_def

text \<open>
  Claim C8. On an interrupt the handler makes one attempt to release the shutter, a single
  \<^verbatim>\<open>SetConfig\<close> of \<^verbatim>\<open>eosremoterelease\<close> to \<^verbatim>\<open>Release Full\<close> (the lookup of the setting and,
  when the lookup succeeds, one \<^verbatim>\<open>Set\<close>), and ends the process with status 1, whatever the
  device answers. It prints nothing.
\<close>

theorem interrupt_handler_releases_once:
  "fst (interrupt_handler env w) = 1
   \<and> calls (snd (interrupt_handler env w)) =
       calls w @ (if on_GetSetting env (calls w) EosRemoteRelease = None
                  then [GetSetting EosRemoteRelease, SettingSet EosRemoteRelease ''Release Full'']
                  else [GetSetting EosRemoteRelease])
   \<and> stdout (snd (interrupt_handler env w)) = stdout w
   \<and> stderr (snd (interrupt_handler env w)) = stderr w"
  by (auto simp: interrupt_handler_def SetConfig_def device_calls split: prod.splits option.splits)

section \<open>The sanity checks of main\<close>

lemma wrap64_id: "- (2 ^ 63) \<le> x \<Longrightarrow> x < 2 ^ 63 \<Longrightarrow> wrap64 x = x"
  by (simp add: wrap64_def)

text \<open>
  Claim C3, as stated, fails twice. On \<^verbatim>\<open>-kind=flats\<close>, \<^verbatim>\<open>main\<close> prints the refusal and
  returns (line 300), so the exit status is 0. On \<open>2\<^sup>3\<^sup>2\<close> frames of \<open>2\<^sup>3\<^sup>2\<close> seconds the
  product of line 302 wraps around to 0, both checks pass and \<^verbatim>\<open>main\<close> goes on to
  \<^verbatim>\<open>Init\<close>.
\<close>

theorem main_refuses_counterexample:
  "Kind (example_flags\<lparr>Kind := ''flats''\<rparr>) \<noteq> ''lights''
   \<and> Kind (example_flags\<lparr>Kind := ''flats''\<rparr>) \<noteq> ''darks''
   \<and> map_option fst (main example_device (example_flags\<lparr>Kind := ''flats''\<rparr>) [] power_on) = Some 0
   \<and> 28800 < Frames (example_flags\<lparr>Frames := 4294967296, Duration := 4294967296\<rparr>)
               * Duration (example_flags\<lparr>Frames := 4294967296, Duration := 4294967296\<rparr>)
   \<and> sanity_checks (example_flags\<lparr>Frames := 4294967296, Duration := 4294967296\<rparr>) = None
   \<and> main example_device (example_flags\<lparr>Frames := 4294967296, Duration := 4294967296\<rparr>) []
         power_on
       = main_after_checks example_device
           (example_flags\<lparr>Frames := 4294967296, Duration := 4294967296\<rparr>) [] power_on"
  by (simp add: main_def sanity_checks_def example_flags_def wrap64_def)

text \<open>
  Claim C3, amended. For every configuration whose kind is neither \<^verbatim>\<open>lights\<close> nor
  \<^verbatim>\<open>darks\<close>, or whose product of frames and duration exceeds 28800 without overflowing
  Go's 64-bit \<^verbatim>\<open>int\<close>, the program prints the refusal of that check and returns from
  \<^verbatim>\<open>main\<close> with exit status 0: no call is issued and nothing else is printed. A
  configuration of kind \<^verbatim>\<open>lights\<close> or \<^verbatim>\<open>darks\<close> with 8 frames of 3600 seconds passes both
  checks and goes on to \<^verbatim>\<open>Init\<close>.
\<close>

theorem main_sanity_checks:
  "((Kind camera \<noteq> ''lights'' \<and> Kind camera \<noteq> ''darks'')
      \<or> (28800 < Frames camera * Duration camera \<and> Frames camera * Duration camera < 2 ^ 63)
    \<longrightarrow> (\<exists>refusal. sanity_checks camera = Some refusal
          \<and> main env camera cameraName w = Some (0, w\<lparr>stdout := stdout w @ [refusal]\<rparr>)))
   \<and> ((Kind camera = ''lights'' \<or> Kind camera = ''darks'')
        \<and> Frames camera = 8 \<and> Duration camera = 3600
    \<longrightarrow> sanity_checks camera = None
        \<and> main env camera cameraName w = main_after_checks env camera cameraName w)"
proof (intro conjI impI)
  assume "(Kind camera \<noteq> ''lights'' \<and> Kind camera \<noteq> ''darks'')
            \<or> (28800 < Frames camera * Duration camera \<and> Frames camera * Duration camera < 2 ^ 63)"
  then consider "Kind camera \<noteq> ''lights'' \<and> Kind camera \<noteq> ''darks''"
    | "28800 < wrap64 (Frames camera * Duration camera)"
    by (auto simp: wrap64_id)
  then show "\<exists>refusal. sanity_checks camera = Some refusal
          \<and> main env camera cameraName w = Some (0, w\<lparr>stdout := stdout w @ [refusal]\<rparr>)"
    by cases (auto simp: main_def sanity_checks_def fmt_Printf_def)
next
  assume "(Kind camera = ''lights'' \<or> Kind camera = ''darks'')
            \<and> Frames camera = 8 \<and> Duration camera = 3600"
  then show "sanity_checks camera = None"
    and "main env camera cameraName w = main_after_checks env camera cameraName w"
    by (auto simp: main_def sanity_checks_def wrap64_def)
qed

theorem main_sanity_checks_witness:
  "main example_device (example_flags\<lparr>Kind := ''flats''\<rparr>) [] power_on =
     Some (0, power_on\<lparr>stdout :=
       [''Bad 'kind' option: flats (must be either 'lights' or 'darks'' @ [CHR 0x27]]\<rparr>)
   \<and> main example_device (example_flags\<lparr>Frames := 10, Duration := 3600\<rparr>) [] power_on =
     Some (0, power_on\<lparr>stdout :=
       [''Specified shooting time is longer than 8 hours, aborting.'' @ nl]\<rparr>)
   \<and> main example_device (example_flags\<lparr>Frames := 8, Duration := 3600\<rparr>) [] power_on =
     main_after_checks example_device (example_flags\<lparr>Frames := 8, Duration := 3600\<rparr>) [] power_on"
  using main_sanity_checks [of "example_flags\<lparr>Kind := ''flats''\<rparr>" example_device "[]" power_on]
    main_sanity_checks [of "example_flags\<lparr>Frames := 10, Duration := 3600\<rparr>" example_device "[]" power_on]
    main_sanity_checks [of "example_flags\<lparr>Frames := 8, Duration := 3600\<rparr>" example_device "[]" power_on]
  by (simp add: sanity_checks_def example_flags_def power_on_def wrap64_def)

section \<open>The exposure cycle\<close>

subsection \<open>The cycle changes the battery level of the session and nothing else\<close>

lemma CaptureBulb_expose_Camera:
  "CaptureBulb_expose env frame c w = (r, c', w') \<Longrightarrow> c' = c\<lparr>Battery := Battery c'\<rparr>"
  by (auto simp: CaptureBulb_expose_def Let_def split: prod.splits sum.splits option.splits)

lemma CaptureBulb_download_Camera:
  "CaptureBulb_download env c w = (r, c', w') \<Longrightarrow> c' = c"
  by (auto simp: CaptureBulb_download_def split: prod.splits option.splits)

lemma CaptureBulb_Camera:
  assumes "CaptureBulb env frame c w = (r, c', w')"
  shows "c' = c\<lparr>Battery := Battery c'\<rparr>"
proof (cases "CaptureBulb_expose env frame c w")
  case (fields r1 c1 w1)
  then have c1: "c1 = c\<lparr>Battery := Battery c1\<rparr>"
    by (rule CaptureBulb_expose_Camera)
  show ?thesis
  proof (cases r1)
    case None
    with fields assms have "CaptureBulb_download env c1 w1 = (r, c', w')"
      by (simp add: CaptureBulb_def)
    then have "c' = c1"
      by (rule CaptureBulb_download_Camera)
    with c1 show ?thesis by simp
  next
    case (Some err)
    with fields assms have "c' = c1"
      by (simp add: CaptureBulb_def)
    with c1 show ?thesis by simp
  qed
qed

lemma CaptureBulb_Frames:
  "CaptureBulb env frame c w = (r, c', w') \<Longrightarrow> Frames c' = Frames c"
  by (drule CaptureBulb_Camera) (erule ssubst, simp)

lemma CaptureBulb_Files:
  "CaptureBulb env frame c w = (r, c', w') \<Longrightarrow> Files c' = Files c"
  by (drule CaptureBulb_Camera) (erule ssubst, simp)

subsection \<open>What a successful cycle downloads\<close>

lemma downloaded_append: "downloaded (ks @ ks') = downloaded ks @ downloaded ks'"
  by (induction ks rule: downloaded.induct) simp_all

lemma SetConfig_downloaded:
  "SetConfig env s v w = (r, w') \<Longrightarrow> downloaded (calls w') = downloaded (calls w)"
  by (auto simp: SetConfig_def device_calls downloaded_append split: prod.splits option.splits)

lemma GetBatteryStatus_downloaded:
  "GetBatteryStatus env w = (r, w') \<Longrightarrow> downloaded (calls w') = downloaded (calls w)"
  by (auto simp: GetBatteryStatus_def device_calls downloaded_append
      split: prod.splits option.splits sum.splits)

lemma CaptureBulb_expose_downloaded:
  assumes "CaptureBulb_expose env frame c w = (r, c', w')"
  shows "downloaded (calls w') = downloaded (calls w)"
proof (cases "GetBatteryStatus env w")
  case (Pair b w1)
  note w1 = GetBatteryStatus_downloaded [OF Pair]
  show ?thesis
  proof (cases b)
    case (Inl err)
    with Pair assms w1 show ?thesis
      by (simp add: CaptureBulb_expose_def)
  next
    case (Inr battery)
    obtain r2 w2 where arm: "SetConfig env EosRemoteRelease ''Immediate'' w1 = (r2, w2)"
      by (cases "SetConfig env EosRemoteRelease ''Immediate'' w1")
    note w2 = SetConfig_downloaded [OF arm]
    show ?thesis
    proof (cases r2)
      case (Some err)
      with Pair Inr arm assms w1 w2 show ?thesis
        by (simp add: CaptureBulb_expose_def)
    next
      case None
      let ?w4 = "time_Sleep (wrap64 (1000000000 * Duration c + 100000000))
                   (print_loop (c\<lparr>Battery := battery\<rparr>) frame w2)"
      have w4: "downloaded (calls ?w4) = downloaded (calls w2)"
        by (simp add: device_calls print_loop_def downloaded_append)
      obtain r5 w5 where rel: "SetConfig env EosRemoteRelease ''Release Full'' ?w4 = (r5, w5)"
        by (cases "SetConfig env EosRemoteRelease ''Release Full'' ?w4")
      note w5 = SetConfig_downloaded [OF rel]
      from Pair Inr arm None rel assms w1 w2 w4 w5 show ?thesis
        by (auto simp: CaptureBulb_expose_def Let_def device_calls downloaded_append
            split: option.splits)
    qed
  qed
qed

lemma download_loop_downloaded:
  "download_loop env c files opened w = (None, opened', w')
   \<Longrightarrow> downloaded (calls w') = downloaded (calls w) @ files"
proof (induction files arbitrary: opened w)
  case Nil
  then show ?case by simp
next
  case (Cons newFile newFiles)
  let ?path = "Target c @ ''/'' @ Kind c @ ''/'' @ Name newFile"
  from Cons.prems obtain w1 w2 where
    "os_Create env ?path w = (None, w1)"
    "file_DownloadImage env newFile ?path False w1 = (None, w2)"
    "download_loop env c newFiles (?path # opened) w2 = (None, opened', w')"
    by (auto simp: Let_def split: prod.splits option.splits)
  moreover from this have "downloaded (calls w2) = downloaded (calls w) @ [newFile]"
    by (auto simp: device_calls downloaded_append)
  ultimately show ?case
    using Cons.IH by fastforce
qed

lemma CaptureBulb_download_downloaded:
  assumes "CaptureBulb_download env c w = (None, c', w')"
  shows "\<exists>files w1. LoadCameraFiles env [] w = (None, files, w1)
          \<and> downloaded (calls w') = downloaded (calls w) @ FindNew (Files c) files"
proof -
  from assms obtain files w1 opened w2 where
    load: "LoadCameraFiles env [] w = (None, files, w1)" and
    loop: "download_loop env c (FindNew (Files c) files) [] w1 = (None, opened, w2)" and
    w': "w' = run_deferred opened w2"
    by (auto simp: CaptureBulb_download_def split: prod.splits option.splits)
  from load have "downloaded (calls w1) = downloaded (calls w)"
    by (auto simp: LoadCameraFiles_def device_calls downloaded_append split: sum.splits)
  moreover have "downloaded (calls w') = downloaded (calls w2)"
    unfolding w' by (induction opened) (simp_all add: run_deferred_def downloaded_append)
  ultimately show ?thesis
    using load download_loop_downloaded [OF loop] by simp
qed

subsection \<open>The example device\<close>

lemmas Init_defs = Init_def Init_identify_def Init_settings_def LoadCameraFiles_def
  SetConfig_def GetBatteryStatus_def walk_def BatteryLevel_def EosRemoteRelease_def
  Itoa_def digits.simps digit_def

lemmas example_defs = example_device_def example_storage_def example_flags_def power_on_def
  example_session_def example_world_def example_image_def print_loop_def

lemmas CaptureBulb_defs = CaptureBulb_def CaptureBulb_expose_def CaptureBulb_download_def
  FindNew_def print_camera_info_def

lemma Init_example:
  "Init example_device [] example_flags power_on = (None, example_session, example_world)"
  by (simp add: Init_defs device_calls example_defs)

lemma Init_busy:
  "Init busy_device [] example_flags power_on = (None, example_session, example_world)"
  by (simp add: Init_defs device_calls example_defs busy_device_def)

lemma CaptureBulb_example_listed:
  "listed_after_exposure example_device 1 example_session example_world = [example_image]"
  by (simp add: listed_after_exposure_def CaptureBulb_expose_def Init_defs device_calls
      example_defs Let_def split: prod.splits)

lemma CaptureBulb_example:
  "fst (CaptureBulb example_device 1 example_session example_world) = None"
  by (simp add: CaptureBulb_defs Init_defs device_calls example_defs Let_def split: prod.splits)

lemma CaptureBulb_busy_session:
  "fst (CaptureBulb busy_device 1 example_session
          (print_camera_info example_session example_world)) = None"
  by (simp add: CaptureBulb_defs Init_defs device_calls example_defs busy_device_def Let_def
      split: prod.splits)

subsection \<open>The baseline manifest\<close>

text \<open>
  Claim C1, as stated, fails on the first cycle of the example session: \<^verbatim>\<open>Init\<close> loads an
  empty baseline, the cycle succeeds and lists the new image, and \<^verbatim>\<open>Files\<close> is still
  empty afterwards. No line of \<^verbatim>\<open>CaptureBulb\<close> assigns \<^verbatim>\<open>c.Files\<close>.
\<close>

theorem CaptureBulb_baseline_counterexample:
  "Init example_device [] example_flags power_on = (None, example_session, example_world)
   \<and> fst (CaptureBulb example_device 1 example_session example_world) = None
   \<and> Files (fst (snd (CaptureBulb example_device 1 example_session example_world))) = []
   \<and> listed_after_exposure example_device 1 example_session example_world = [example_image]"
proof -
  obtain r c' w' where run: "CaptureBulb example_device 1 example_session example_world = (r, c', w')"
    by (cases "CaptureBulb example_device 1 example_session example_world")
  from CaptureBulb_Files [OF run] have "Files c' = []"
    by (simp add: example_defs)
  with run Init_example CaptureBulb_example CaptureBulb_example_listed show ?thesis
    by simp
qed

text \<open>
  Claim C1, amended. A successful Exposure Cycle (\<^verbatim>\<open>CaptureBulb\<close> returning nil) leaves the
  session's baseline manifest \<^verbatim>\<open>Files\<close> as it was, the manifest \<^verbatim>\<open>Init\<close> loaded, and the
  files it downloads are exactly \<open>FindNew\<close> of that baseline and the manifest listed
  after the exposure, in the order of the listing.
\<close>

theorem CaptureBulb_keeps_baseline:
  assumes "CaptureBulb env frame c w = (None, c', w')"
  shows "Files c' = Files c
    \<and> downloaded (calls w') =
        downloaded (calls w) @ FindNew (Files c) (listed_after_exposure env frame c w)"
proof -
  from assms obtain c1 w1 where
    expose: "CaptureBulb_expose env frame c w = (None, c1, w1)" and
    download: "CaptureBulb_download env c1 w1 = (None, c', w')"
    by (auto simp: CaptureBulb_def split: prod.splits option.splits)
  from expose have "c1 = c\<lparr>Battery := Battery c1\<rparr>"
    by (rule CaptureBulb_expose_Camera)
  then have Files: "Files c1 = Files c"
    by (rule ssubst) simp
  from CaptureBulb_download_downloaded [OF download] obtain files w2 where
    load: "LoadCameraFiles env [] w1 = (None, files, w2)" and
    news: "downloaded (calls w') = downloaded (calls w1) @ FindNew (Files c1) files"
    by blast
  from expose load have "listed_after_exposure env frame c w = files"
    by (simp add: listed_after_exposure_def)
  with news Files CaptureBulb_expose_downloaded [OF expose] CaptureBulb_Files [OF assms]
  show ?thesis by simp
qed

theorem CaptureBulb_keeps_baseline_witness:
  "fst (CaptureBulb example_device 1 example_session example_world) = None
   \<and> Files (fst (snd (CaptureBulb example_device 1 example_session example_world)))
       = Files example_session
   \<and> downloaded (calls (snd (snd (CaptureBulb example_device 1 example_session example_world))))
       = [example_image]"
proof -
  obtain r c' w' where run: "CaptureBulb example_device 1 example_session example_world = (r, c', w')"
    by (cases "CaptureBulb example_device 1 example_session example_world")
  with CaptureBulb_example have success:
    "CaptureBulb example_device 1 example_session example_world = (None, c', w')"
    by simp
  have "downloaded (calls example_world) = []"
    and "FindNew (Files example_session) [example_image] = [example_image]"
    by (simp_all add: example_world_def example_session_def example_flags_def FindNew_def)
  with CaptureBulb_keeps_baseline [OF success] success CaptureBulb_example_listed
  show ?thesis by simp
qed

section \<open>The capture loop\<close>

lemma Init_identify_Camera:
  "Init_identify env c w = (r, c', w')
   \<Longrightarrow> c' = c\<lparr>Model := Model c', Lens := Lens c', Files := Files c'\<rparr>"
  by (auto simp: Init_identify_def Let_def split: prod.splits sum.splits option.splits)

lemma Init_Camera:
  assumes "Init env name c w = (r, c', w')"
  shows "c' = c\<lparr>Model := Model c', Lens := Lens c', Files := Files c', Battery := Battery c'\<rparr>"
proof (cases "gphoto2_NewCamera env name w")
  case (Pair r1 w1)
  show ?thesis
  proof (cases r1)
    case (Some err)
    with Pair assms show ?thesis by (simp add: Init_def)
  next
    case None
    obtain r2 c2 w2 where ident: "Init_identify env c w1 = (r2, c2, w2)"
      by (cases "Init_identify env c w1")
    note c2 = Init_identify_Camera [OF ident]
    from Pair None ident assms have "c' = c2 \<or> (\<exists>b. c' = c2\<lparr>Battery := b\<rparr>)"
      by (auto simp: Init_def split: prod.splits sum.splits option.splits)
    with c2 show ?thesis
      by (cases c, cases c2) auto
  qed
qed

lemma Init_Frames: "Init env name c w = (r, c', w') \<Longrightarrow> Frames c' = Frames c"
  by (drule Init_Camera) (erule ssubst, simp)

subsection \<open>A bounded run\<close>

lemma CaptureLoop_from_bounded:
  assumes "0 \<le> frame" and "frame \<le> Frames c" and "0 < Frames c" and "Frames c < 2 ^ 63"
    and "cycles_in_order env [frame + 1..Frames c] c w = (None, c', w')"
  shows "CaptureLoop_from env frame c w =
           Some (None, c', fmt_Printf (nl @ nl @ ''Frames capture complete.'' @ nl) w')"
  using assms
proof (induction "nat (Frames c - frame)" arbitrary: frame c w)
  case 0
  then have "frame = Frames c" by simp
  with "0.prems" show ?case
    by (subst CaptureLoop_from.simps) auto
next
  case (Suc n)
  then have less: "frame < Frames c" by linarith
  with Suc.prems have next_frame: "wrap64 (frame + 1) = frame + 1"
    by (intro wrap64_id) auto
  from less have "[frame + 1..Frames c] = (frame + 1) # [frame + 1 + 1..Frames c]"
    by (simp add: upto_rec1)
  with Suc.prems obtain c1 w1 where
    cycle: "CaptureBulb env (frame + 1) c w = (None, c1, w1)" and
    rest: "cycles_in_order env [frame + 1 + 1..Frames c] c1 w1 = (None, c', w')"
    by (auto split: prod.splits option.splits)
  note Frames = CaptureBulb_Frames [OF cycle]
  have "CaptureLoop_from env (frame + 1) c1 w1 =
          Some (None, c', fmt_Printf (nl @ nl @ ''Frames capture complete.'' @ nl) w')"
  proof (rule Suc.hyps(1))
    show "n = nat (Frames c1 - (frame + 1))"
      using Suc.hyps(2) Frames by linarith
    show "0 \<le> frame + 1" "frame + 1 \<le> Frames c1" "0 < Frames c1" "Frames c1 < 2 ^ 63"
      using Suc.prems less Frames by auto
    show "cycles_in_order env [frame + 1 + 1..Frames c1] c1 w1 = (None, c', w')"
      using rest Frames by simp
  qed
  with less cycle next_frame show ?case
    by (subst CaptureLoop_from.simps) simp
qed

lemma upto_example_flags: "[1..Frames example_flags] = [1]"
  by (simp add: example_flags_def upto_rec1)

text \<open>
  On the busy device with one frame every Exposure Cycle succeeds and \<^verbatim>\<open>CaptureLoop\<close>
  returns nil; \<^verbatim>\<open>camera.Close\<close> then fails and \<^verbatim>\<open>log.Fatal\<close> (line 335) ends the
  process with status 1.
\<close>

lemma main_exit_when_Close_fails:
  "0 < Frames example_flags
   \<and> fst (cycles_in_order busy_device [1..Frames example_flags] example_session
           (print_camera_info example_session example_world)) = None
   \<and> map_option fst (CaptureLoop busy_device example_session
                       (print_camera_info example_session example_world)) = Some None
   \<and> map_option fst (main busy_device example_flags [] power_on) = Some 1"
proof -
  let ?w = "print_camera_info example_session example_world"
  let ?done = "fmt_Printf (nl @ nl @ ''Frames capture complete.'' @ nl)"
  obtain r c' w2 where cycle: "CaptureBulb busy_device 1 example_session ?w = (r, c', w2)"
    by (cases "CaptureBulb busy_device 1 example_session ?w")
  with CaptureBulb_busy_session have r: "r = None" by simp
  with cycle have cycles:
    "cycles_in_order busy_device [1..Frames example_flags] example_session ?w = (None, c', w2)"
    by (simp add: upto_example_flags)
  have "Frames example_session = Frames example_flags"
    by (simp add: example_session_def)
  with cycles have loop: "CaptureLoop busy_device example_session ?w = Some (None, c', ?done w2)"
    unfolding CaptureLoop_def
    by (intro CaptureLoop_from_bounded) (simp_all add: example_flags_def)
  obtain w3 where close: "Close busy_device (?done w2) = (Some (Error ''I/O in progress''), w3)"
    by (simp add: Close_def device_calls busy_device_def example_device_def)
  have "sanity_checks example_flags = None"
    by (simp add: sanity_checks_def example_flags_def wrap64_def)
  with loop close Init_busy have "map_option fst (main busy_device example_flags [] power_on) = Some 1"
    by (simp add: main_def main_after_checks_def log_Fatal_def)
  with cycles loop show ?thesis
    by (simp add: example_flags_def)
qed

text \<open>
  Claim C7. For every target frame count \<open>N > 0\<close> (a Go \<^verbatim>\<open>int\<close>, so below \<open>2\<^sup>6\<^sup>3\<close>), in a
  run of \<^verbatim>\<open>main\<close> whose device calls all succeed (the sanity checks pass, \<^verbatim>\<open>Init\<close>
  succeeds, every Exposure Cycle succeeds and so does the closing \<^verbatim>\<open>camera.Close\<close>),
  \<^verbatim>\<open>CaptureLoop\<close> invokes the Exposure Cycle exactly \<open>N\<close> times, with the frame indices 1 to
  \<open>N\<close> in increasing order, prints that the capture is complete and returns nil, and the
  process exits with status 0.
\<close>

theorem CaptureLoop_bounded_run:
  assumes "Kind camera = ''lights'' \<or> Kind camera = ''darks''"
    and "wrap64 (Frames camera * Duration camera) \<le> 28800"
    and "0 < Frames camera" and "Frames camera < 2 ^ 63"
    and "Init env cameraName camera w = (None, c, w1)"
    and "cycles_in_order env [1..Frames camera] c (print_camera_info c w1) = (None, c', w2)"
    and "Close env (fmt_Printf (nl @ nl @ ''Frames capture complete.'' @ nl) w2) = (None, w3)"
  shows "CaptureLoop env c (print_camera_info c w1) =
           Some (None, c', fmt_Printf (nl @ nl @ ''Frames capture complete.'' @ nl) w2)
       \<and> main env camera cameraName w = Some (0, w3)"
proof -
  have Frames: "Frames c = Frames camera"
    using assms(5) by (rule Init_Frames)
  have loop: "CaptureLoop env c (print_camera_info c w1) =
           Some (None, c', fmt_Printf (nl @ nl @ ''Frames capture complete.'' @ nl) w2)"
    unfolding CaptureLoop_def
    using assms(3,4,6) Frames by (intro CaptureLoop_from_bounded) auto
  have "sanity_checks camera = None"
    using assms(1,2) by (auto simp: sanity_checks_def)
  with loop assms(5,7) show ?thesis
    by (simp add: main_def main_after_checks_def)
qed

text \<open>On the example device every call succeeds, so every Exposure Cycle does.\<close>

lemma download_loop_example:
  "fst (download_loop example_device c files opened w) = None"
  by (induction files arbitrary: opened w)
    (simp_all add: Let_def device_calls example_device_def)

lemma CaptureBulb_example_succeeds:
  "fst (CaptureBulb example_device frame c w) = None"
proof -
  have expose: "fst (CaptureBulb_expose example_device frame c w) = None"
    by (simp add: CaptureBulb_expose_def GetBatteryStatus_def SetConfig_def Let_def
        device_calls example_device_def)
  have download: "fst (CaptureBulb_download example_device c' w') = None" for c' w'
  proof -
    obtain storage where "on_ListFiles example_device (calls w') = Inr storage"
      by (simp add: example_device_def)
    moreover have "r = None"
      if "download_loop example_device c' files [] w1 = (r, opened, w2)" for files w1 r opened w2
      using download_loop_example [of c' files "[]" w1] that by simp
    ultimately show ?thesis
      by (auto simp: CaptureBulb_download_def LoadCameraFiles_def camera_ListFiles_def
          split: prod.splits)
  qed
  obtain r1 c1 w1 where exposed: "CaptureBulb_expose example_device frame c w = (r1, c1, w1)"
    by (cases "CaptureBulb_expose example_device frame c w")
  with expose have "r1 = None"
    by simp
  with exposed download [of c1 w1] show ?thesis
    by (simp add: CaptureBulb_def)
qed

lemma cycles_in_order_example:
  "fst (cycles_in_order example_device frames c w) = None"
proof (induction frames arbitrary: c w)
  case Nil
  show ?case by simp
next
  case (Cons frame frames)
  obtain r c1 w1 where cycle: "CaptureBulb example_device frame c w = (r, c1, w1)"
    by (cases "CaptureBulb example_device frame c w")
  with CaptureBulb_example_succeeds [of frame c w] have "r = None"
    by simp
  with cycle Cons.IH show ?case
    by simp
qed

lemma Init_example_three_frames:
  "Init example_device [] (example_flags\<lparr>Frames := 3\<rparr>) power_on
     = (None, example_session\<lparr>Frames := 3\<rparr>, example_world)"
  by (simp add: Init_defs device_calls example_defs)

lemma upto_three_frames: "[1..Frames (example_flags\<lparr>Frames := 3\<rparr>)] = [1, 2, 3]"
  by (simp add: upto_rec1)

theorem CaptureLoop_bounded_run_witness:
  "[1..Frames (example_flags\<lparr>Frames := 3\<rparr>)] = [1, 2, 3]
   \<and> fst (cycles_in_order example_device [1, 2, 3] (example_session\<lparr>Frames := 3\<rparr>)
           (print_camera_info (example_session\<lparr>Frames := 3\<rparr>) example_world)) = None
   \<and> CaptureLoop example_device (example_session\<lparr>Frames := 3\<rparr>)
         (print_camera_info (example_session\<lparr>Frames := 3\<rparr>) example_world)
       = Some (None,
           fst (snd (cycles_in_order example_device [1, 2, 3] (example_session\<lparr>Frames := 3\<rparr>)
             (print_camera_info (example_session\<lparr>Frames := 3\<rparr>) example_world))),
           fmt_Printf (nl @ nl @ ''Frames capture complete.'' @ nl)
             (snd (snd (cycles_in_order example_device [1, 2, 3]
               (example_session\<lparr>Frames := 3\<rparr>)
               (print_camera_info (example_session\<lparr>Frames := 3\<rparr>) example_world)))))
   \<and> map_option fst (main example_device (example_flags\<lparr>Frames := 3\<rparr>) [] power_on) = Some 0"
proof -
  let ?flags = "example_flags\<lparr>Frames := 3\<rparr>"
  let ?c = "example_session\<lparr>Frames := 3\<rparr>"
  let ?w = "print_camera_info ?c example_world"
  obtain r c' w2 where run: "cycles_in_order example_device [1, 2, 3] ?c ?w = (r, c', w2)"
    by (cases "cycles_in_order example_device [1, 2, 3] ?c ?w")
  with cycles_in_order_example [of "[1, 2, 3]" ?c ?w] have "r = None"
    by simp
  with run have cycles:
    "cycles_in_order example_device [1..Frames ?flags] ?c ?w = (None, c', w2)"
    by (simp only: upto_three_frames)
  obtain w3 where close:
    "Close example_device (fmt_Printf (nl @ nl @ ''Frames capture complete.'' @ nl) w2) = (None, w3)"
    by (simp add: Close_def device_calls example_device_def)
  have "Kind ?flags = ''lights'' \<or> Kind ?flags = ''darks''"
    and "wrap64 (Frames ?flags * Duration ?flags) \<le> 28800"
    and "0 < Frames ?flags" and "Frames ?flags < 2 ^ 63"
    by (simp_all add: example_flags_def wrap64_def)
  from CaptureLoop_bounded_run [OF this Init_example_three_frames cycles close]
  have "CaptureLoop example_device ?c ?w =
          Some (None, c', fmt_Printf (nl @ nl @ ''Frames capture complete.'' @ nl) w2)"
    and "main example_device ?flags [] power_on = Some (0, w3)"
    by simp_all
  with run \<open>r = None\<close> upto_three_frames show ?thesis
    by simp
qed

subsection \<open>The frame index\<close>

lemma CaptureLoop_at_Frames:
  "CaptureLoop_at env c0 w0 frame c w \<Longrightarrow> Frames c = Frames c0"
  by (induction rule: CaptureLoop_at.induct) (auto dest: CaptureBulb_Frames)

lemma CaptureLoop_at_counter:
  assumes "CaptureLoop_at env c0 w0 frame c w" and "Frames c0 \<noteq> 0" and "Frames c0 < 2 ^ 63"
  shows "0 \<le> frame \<and> (frame = 0 \<or> frame \<le> Frames c0)"
  using assms
proof (induction rule: CaptureLoop_at.induct)
  case enter
  then show ?case by simp
next
  case (again frame c w c1 w1)
  then have "Frames c = Frames c0"
    by (simp add: CaptureLoop_at_Frames)
  with again have "0 \<le> frame" and "frame < Frames c0" and "Frames c0 < 2 ^ 63"
    by auto
  then have "wrap64 (frame + 1) = frame + 1"
    by (intro wrap64_id) auto
  with \<open>0 \<le> frame\<close> \<open>frame < Frames c0\<close> show ?case by simp
qed

text \<open>
  The transition system and the loop agree: from every state the loop head reaches, the
  loop continues to the result of the whole loop.
\<close>

lemma CaptureLoop_at_continues:
  "CaptureLoop_at env c0 w0 frame c w \<Longrightarrow> CaptureLoop_from env frame c w = CaptureLoop env c0 w0"
proof (induction rule: CaptureLoop_at.induct)
  case enter
  show ?case by (simp add: CaptureLoop_def)
next
  case (again frame c w c1 w1)
  then show ?case
    by (subst (asm) CaptureLoop_from.simps) simp
qed

text \<open>
  Claim C10. Throughout every run of the Capture Loop with a target frame count other than
  0 (a Go \<^verbatim>\<open>int\<close>, so below \<open>2\<^sup>6\<^sup>3\<close>), the target stays what it was and every invocation of
  the Exposure Cycle, made when the loop head is reached with the loop condition true,
  receives a frame index between 1 and the target inclusive.
\<close>

theorem CaptureLoop_frame_index_in_range:
  assumes "CaptureLoop_at env c0 w0 frame c w"
    and "Frames c0 \<noteq> 0" and "Frames c0 < 2 ^ 63"
    and "Frames c = 0 \<or> frame < Frames c"
  shows "Frames c = Frames c0 \<and> 1 \<le> wrap64 (frame + 1) \<and> wrap64 (frame + 1) \<le> Frames c0"
proof -
  have Frames: "Frames c = Frames c0"
    using assms(1) by (rule CaptureLoop_at_Frames)
  with assms have "0 \<le> frame" and "frame < Frames c0"
    using CaptureLoop_at_counter [OF assms(1-3)] by auto
  moreover from this assms(3) have "wrap64 (frame + 1) = frame + 1"
    by (intro wrap64_id) auto
  ultimately show ?thesis
    using Frames by simp
qed

lemma CaptureBulb_example_two_frames:
  "fst (CaptureBulb example_device 1 (example_session\<lparr>Frames := 2\<rparr>) example_world) = None"
  by (simp add: CaptureBulb_defs Init_defs device_calls example_defs Let_def split: prod.splits)

theorem CaptureLoop_frame_index_witness:
  "CaptureLoop_at example_device (example_session\<lparr>Frames := 2\<rparr>) example_world 1
     (fst (snd (CaptureBulb example_device 1 (example_session\<lparr>Frames := 2\<rparr>) example_world)))
     (snd (snd (CaptureBulb example_device 1 (example_session\<lparr>Frames := 2\<rparr>) example_world)))
   \<and> Frames (example_session\<lparr>Frames := 2\<rparr>) = 2
   \<and> 1 \<le> wrap64 (1 + 1) \<and> wrap64 (1 + 1) \<le> Frames (example_session\<lparr>Frames := 2\<rparr>)"
proof -
  let ?c = "example_session\<lparr>Frames := 2\<rparr>"
  obtain r c1 w1 where run: "CaptureBulb example_device 1 ?c example_world = (r, c1, w1)"
    by (cases "CaptureBulb example_device 1 ?c example_world")
  with CaptureBulb_example_two_frames have cycle:
    "CaptureBulb example_device 1 ?c example_world = (None, c1, w1)"
    by simp
  have one: "wrap64 1 = 1"
    by (simp add: wrap64_def)
  have "CaptureLoop_at example_device ?c example_world 0 ?c example_world"
    by (rule CaptureLoop_at.enter)
  from CaptureLoop_at.again [OF this, of c1 w1] cycle
  have at: "CaptureLoop_at example_device ?c example_world 1 c1 w1"
    by (simp add: one)
  have "Frames c1 = 2"
    using CaptureBulb_Frames [OF cycle] by simp
  then have "Frames ?c \<noteq> 0" and "Frames ?c < 2 ^ 63" and "Frames c1 = 0 \<or> 1 < Frames c1"
    by simp_all
  from CaptureLoop_frame_index_in_range [OF at this] at cycle show ?thesis
    by simp
qed

subsection \<open>A bounded run always ends\<close>

text \<open>
  With a target frame count other than 0 the loop returns whatever the device answers,
  and so does \<^verbatim>\<open>main\<close>.
\<close>

lemma CaptureLoop_from_returns:
  assumes "Frames c \<noteq> 0" and "Frames c < 2 ^ 63" and "0 \<le> frame"
  shows "\<exists>y. CaptureLoop_from env frame c w = Some y"
  using assms
proof (induction "nat (Frames c - frame)" arbitrary: frame c w)
  case 0
  then have "\<not> (Frames c = 0 \<or> frame < Frames c)"
    by simp
  then show ?case
    by (subst CaptureLoop_from.simps) simp
next
  case (Suc n)
  then have less: "frame < Frames c" by linarith
  with Suc.prems have next_frame: "wrap64 (frame + 1) = frame + 1"
    by (intro wrap64_id) auto
  obtain r c1 w1 where cycle: "CaptureBulb env (frame + 1) c w = (r, c1, w1)"
    by (cases "CaptureBulb env (frame + 1) c w")
  note Frames = CaptureBulb_Frames [OF cycle]
  show ?case
  proof (cases r)
    case (Some err)
    with less cycle next_frame show ?thesis
      by (subst CaptureLoop_from.simps) simp
  next
    case None
    have "\<exists>y. CaptureLoop_from env (frame + 1) c1 w1 = Some y"
    proof (rule Suc.hyps(1))
      show "n = nat (Frames c1 - (frame + 1))"
        using Suc.hyps(2) Frames by linarith
      show "Frames c1 \<noteq> 0" "Frames c1 < 2 ^ 63" "0 \<le> frame + 1"
        using Suc.prems Frames by auto
    qed
    with less cycle next_frame None show ?thesis
      by (subst CaptureLoop_from.simps) simp
  qed
qed

lemma main_returns:
  assumes "Frames camera \<noteq> 0" and "Frames camera < 2 ^ 63"
  shows "\<exists>status w'. main env camera cameraName w = Some (status, w')"
proof (cases "sanity_checks camera")
  case (Some refusal)
  then show ?thesis by (simp add: main_def)
next
  case None
  obtain r c1 w1 where init: "Init env cameraName camera w = (r, c1, w1)"
    by (cases "Init env cameraName camera w")
  show ?thesis
  proof (cases r)
    case (Some err)
    with \<open>sanity_checks camera = None\<close> init show ?thesis
      by (simp add: main_def main_after_checks_def log_Fatal_def)
  next
    case None
    from init have "Frames c1 = Frames camera"
      by (rule Init_Frames)
    with assms obtain y where
      "CaptureLoop_from env 0 c1 (print_camera_info c1 w1) = Some y"
      using CaptureLoop_from_returns [of c1 0 env "print_camera_info c1 w1"] by auto
    with \<open>sanity_checks camera = None\<close> init None show ?thesis
      by (auto simp: main_def main_after_checks_def CaptureLoop_def log_Fatal_def
          split: prod.splits option.splits)
  qed
qed

section \<open>The Keep flag\<close>

text \<open>
  No function reads the field \<^verbatim>\<open>Keep\<close>, which the flag \<^verbatim>\<open>-keep\<close> fills (line 294): each
  returns the same results, issues the same calls and prints the same lines whatever its
  value, and leaves it as it was.
\<close>

lemma Status_Keep: "Status (c\<lparr>Keep := k\<rparr>) frame seconds = Status c frame seconds"
  by (simp add: Status_def)

lemma print_loop_Keep:
  "print_loop (c\<lparr>Keep := k, Battery := b\<rparr>) frame w = print_loop (c\<lparr>Battery := b\<rparr>) frame w"
  by (simp add: print_loop_def Status_def)

lemma CaptureBulb_expose_Keep:
  "CaptureBulb_expose env frame (c\<lparr>Keep := k\<rparr>) w =
     (case CaptureBulb_expose env frame c w of (r, c', w') \<Rightarrow> (r, c'\<lparr>Keep := k\<rparr>, w'))"
  by (simp add: CaptureBulb_expose_def Let_def print_loop_Keep
      split: prod.splits sum.splits option.splits)

lemma download_loop_Keep:
  "download_loop env (c\<lparr>Keep := k\<rparr>) files opened w = download_loop env c files opened w"
  by (induction files arbitrary: opened w)
    (auto simp: Let_def split: prod.splits option.splits)

lemma CaptureBulb_download_Keep:
  "CaptureBulb_download env (c\<lparr>Keep := k\<rparr>) w =
     (case CaptureBulb_download env c w of (r, c', w') \<Rightarrow> (r, c'\<lparr>Keep := k\<rparr>, w'))"
  by (simp add: CaptureBulb_download_def download_loop_Keep split: prod.splits option.splits)

lemma CaptureBulb_Keep:
  "CaptureBulb env frame (c\<lparr>Keep := k\<rparr>) w =
     (case CaptureBulb env frame c w of (r, c', w') \<Rightarrow> (r, c'\<lparr>Keep := k\<rparr>, w'))"
  by (simp add: CaptureBulb_def CaptureBulb_expose_Keep CaptureBulb_download_Keep
      split: prod.splits option.splits)

lemma CaptureLoop_from_Keep_Some:
  assumes "CaptureLoop_from env frame c w = Some y"
  shows "CaptureLoop_from env frame (c\<lparr>Keep := k\<rparr>) w =
           Some (case y of (r, c', w') \<Rightarrow> (r, c'\<lparr>Keep := k\<rparr>, w'))"
proof (rule CaptureLoop_from.raw_induct
    [where P = "\<lambda>env frame c w y. CaptureLoop_from env frame (c\<lparr>Keep := k\<rparr>) w =
                  Some (case y of (r, c', w') \<Rightarrow> (r, c'\<lparr>Keep := k\<rparr>, w'))", OF _ assms])
  fix loop env frame c w y
  assume earlier: "\<And>env frame c w y. loop env frame c w = Some y \<Longrightarrow>
      CaptureLoop_from env frame (c\<lparr>Keep := k\<rparr>) w =
        Some (case y of (r, c', w') \<Rightarrow> (r, c'\<lparr>Keep := k\<rparr>, w'))"
    and body: "(if Frames c = 0 \<or> frame < Frames c
      then case CaptureBulb env (wrap64 (frame + 1)) c w of
           (None, c1, w1) \<Rightarrow> loop env (wrap64 (frame + 1)) c1 w1
           | (Some err, c1, w1) \<Rightarrow> Some (Some err, c1, w1)
      else Some (None, c, fmt_Printf (nl @ nl @ ''Frames capture complete.'' @ nl) w)) = Some y"
  show "CaptureLoop_from env frame (c\<lparr>Keep := k\<rparr>) w =
          Some (case y of (r, c', w') \<Rightarrow> (r, c'\<lparr>Keep := k\<rparr>, w'))"
  proof (cases "Frames c = 0 \<or> frame < Frames c")
    case False
    with body have "y = (None, c, fmt_Printf (nl @ nl @ ''Frames capture complete.'' @ nl) w)"
      by simp
    with False show ?thesis
      by (subst CaptureLoop_from.simps) simp
  next
    case True
    obtain r1 c1 w1 where cycle: "CaptureBulb env (wrap64 (frame + 1)) c w = (r1, c1, w1)"
      by (cases "CaptureBulb env (wrap64 (frame + 1)) c w")
    show ?thesis
    proof (cases r1)
      case (Some err)
      with True cycle body have "y = (Some err, c1, w1)"
        by simp
      with True cycle Some show ?thesis
        by (subst CaptureLoop_from.simps) (simp add: CaptureBulb_Keep)
    next
      case None
      with True cycle body have "loop env (wrap64 (frame + 1)) c1 w1 = Some y"
        by simp
      then have "CaptureLoop_from env (wrap64 (frame + 1)) (c1\<lparr>Keep := k\<rparr>) w1
                   = Some (case y of (r, c', w') \<Rightarrow> (r, c'\<lparr>Keep := k\<rparr>, w'))"
        by (rule earlier)
      with True cycle None show ?thesis
        by (subst CaptureLoop_from.simps) (simp add: CaptureBulb_Keep)
    qed
  qed
qed

lemma CaptureLoop_from_Keep:
  "CaptureLoop_from env frame (c\<lparr>Keep := k\<rparr>) w =
     map_option (\<lambda>(r, c', w'). (r, c'\<lparr>Keep := k\<rparr>, w')) (CaptureLoop_from env frame c w)"
proof (cases "CaptureLoop_from env frame c w")
  case (Some y)
  then show ?thesis
    by (simp add: CaptureLoop_from_Keep_Some)
next
  case None
  have "CaptureLoop_from env frame (c\<lparr>Keep := k\<rparr>) w = None"
  proof (rule ccontr)
    assume "CaptureLoop_from env frame (c\<lparr>Keep := k\<rparr>) w \<noteq> None"
    then obtain y where "CaptureLoop_from env frame (c\<lparr>Keep := k\<rparr>) w = Some y"
      by blast
    from CaptureLoop_from_Keep_Some [OF this, of "Keep c"] None show False
      by simp
  qed
  with None show ?thesis by simp
qed

lemma Init_identify_Keep:
  "Init_identify env (c\<lparr>Keep := k\<rparr>) w =
     (case Init_identify env c w of (r, c', w') \<Rightarrow> (r, c'\<lparr>Keep := k\<rparr>, w'))"
  by (simp add: Init_identify_def Let_def split: prod.splits sum.splits option.splits)

lemma Init_settings_Keep: "Init_settings env (c\<lparr>Keep := k\<rparr>) = Init_settings env c"
  by (simp add: Init_settings_def)

lemma Init_Keep:
  "Init env name (c\<lparr>Keep := k\<rparr>) w =
     (case Init env name c w of (r, c', w') \<Rightarrow> (r, c'\<lparr>Keep := k\<rparr>, w'))"
  by (simp add: Init_def Init_identify_Keep Init_settings_Keep
      split: prod.splits sum.splits option.splits)

lemma sanity_checks_Keep: "sanity_checks (camera\<lparr>Keep := k\<rparr>) = sanity_checks camera"
  by (simp add: sanity_checks_def)

lemma print_camera_info_Keep: "print_camera_info (c\<lparr>Keep := k\<rparr>) w = print_camera_info c w"
  by (simp add: print_camera_info_def)

lemma main_after_checks_Keep:
  "main_after_checks env (camera\<lparr>Keep := k\<rparr>) cameraName w =
     main_after_checks env camera cameraName w"
proof -
  obtain r c1 w1 where init: "Init env cameraName camera w = (r, c1, w1)"
    by (cases "Init env cameraName camera w")
  show ?thesis
  proof (cases r)
    case (Some err)
    with init show ?thesis
      by (simp add: main_after_checks_def Init_Keep)
  next
    case None
    show ?thesis
    proof (cases "CaptureLoop_from env 0 c1 (print_camera_info c1 w1)")
      case None
      with init \<open>r = None\<close> show ?thesis
        by (simp add: main_after_checks_def Init_Keep CaptureLoop_def CaptureLoop_from_Keep
            print_camera_info_Keep)
    next
      case (Some y)
      obtain r2 c2 w2 where "y = (r2, c2, w2)"
        by (cases y)
      with Some init \<open>r = None\<close> show ?thesis
        by (simp add: main_after_checks_def Init_Keep CaptureLoop_def CaptureLoop_from_Keep
            print_camera_info_Keep split: option.splits)
    qed
  qed
qed

text \<open>
  Two runs of the program that differ only in the value of \<^verbatim>\<open>Keep\<close> end with the same
  exit status, the same calls to the device and the operating system (the downloads among
  them) and the same output, or both run forever. Whatever the flag, every download is
  \<^verbatim>\<open>DownloadImage\<close> with \<^verbatim>\<open>false\<close> as its second argument (line 179).
\<close>

lemma main_Keep: "main env (camera\<lparr>Keep := k\<rparr>) cameraName w = main env camera cameraName w"
  by (simp add: main_def sanity_checks_Keep main_after_checks_Keep split: option.splits)

end
